theory Spec2Isabelle
  imports Main "HOL-Library.Word"
begin

section \<open>Synchronized checkpoints (checkpointsync.cpp)\<close>

subsection \<open>Data model\<close>

text \<open>
  A block hash is a \<open>uint256\<close>; the all-zero value
  \<^verbatim>\<open>ArithToUint256(arith_uint256(0))\<close> means "no checkpoint".
\<close>

type_synonym uint256 = "256 word"
type_synonym bytes = "8 word list"

text \<open>
  An entry of the block index. The file only reads the index: it follows \<^verbatim>\<open>pprev\<close>,
  reads \<^verbatim>\<open>nHeight\<close> and calls \<^verbatim>\<open>GetBlockHash()\<close>. An entry is therefore a value that
  carries its parent (\<open>None\<close> is the null pointer), so that every chain of parent
  links is finite. \<^verbatim>\<open>nHeight\<close> is a C++ \<^verbatim>\<open>int\<close>; heights are only compared, except in
  \<open>AutoSelectSyncCheckpoint\<close>, where the 32-bit addition is written out.
\<close>

datatype CBlockIndex =
  CBlockIndex (phashBlock: uint256) (pprev: "CBlockIndex option") (nHeight: int)

definition GetBlockHash :: "CBlockIndex \<Rightarrow> uint256" where
  "GetBlockHash pindex = phashBlock pindex"

text \<open>
  \<^verbatim>\<open>CChain\<close> is declared outside this file. The file calls \<^verbatim>\<open>Tip()\<close> and
  \<^verbatim>\<open>Contains(pindex)\<close> only, which are taken as they are: the tip (null on an empty
  chain) and the membership test of the active chain.
\<close>

record CChain =
  Tip :: "CBlockIndex option"
  Contains :: "CBlockIndex \<Rightarrow> bool"

text \<open>
  The chain state as far as this file uses it: the block index
  \<^verbatim>\<open>m_blockman.m_block_index\<close>, the active chain \<^verbatim>\<open>m_chain\<close>, and whether
  \<^verbatim>\<open>m_blockman.m_block_tree_db->WriteSyncCheckpoint\<close> succeeds (it returns false on an
  I/O failure).
\<close>

record Chainstate =
  m_block_index :: "uint256 \<rightharpoonup> CBlockIndex"
  m_chain :: CChain
  block_tree_db_ok :: bool

text \<open>The signed message: the checkpoint hash, the signed bytes and the signature.\<close>

record CSyncCheckpoint =
  hashCheckpoint :: uint256
  vchMsg :: bytes
  vchSig :: bytes

text \<open>
  Modelled from the spec: \<^verbatim>\<open>CSyncCheckpoint::SetNull\<close> and \<^verbatim>\<open>IsNull\<close> are declared in
  checkpointsync.h, which is not part of the sources. The specification says that a
  message is null if its hash is the zero sentinel, and that clearing the pending
  message leaves no message.
\<close>

definition SetNull :: "CSyncCheckpoint" where
  "SetNull = \<lparr>hashCheckpoint = 0, vchMsg = [], vchSig = []\<rparr>"

definition IsNull :: "CSyncCheckpoint \<Rightarrow> bool" where
  "IsNull m = (hashCheckpoint m = 0)"

text \<open>
  What the file does to its collaborators, in the order it does it: a successful write
  of the checkpoint hash to the block tree database, a forced flush of the chain state,
  and a call of \<^verbatim>\<open>RelayTo(pnode)\<close> on a message.
\<close>

type_synonym CNode = nat

datatype effect =
  DbWriteSyncCheckpoint uint256
| ForceFlushStateToDisk
| RelayTo CSyncCheckpoint CNode

text \<open>
  The file-level variables, guarded by \<^verbatim>\<open>cs_hashSyncCheckpoint\<close>, together with the
  trace of effects performed so far (oldest first).
\<close>

record state =
  hashSyncCheckpoint :: uint256
  hashPendingCheckpoint :: uint256
  checkpointMessage :: CSyncCheckpoint
  checkpointMessagePending :: CSyncCheckpoint
  hashInvalidCheckpoint :: uint256
  strCheckpointWarning :: string
  effects :: "effect list"

subsection \<open>ValidateSyncCheckpoint\<close>

text \<open>
  The function returns a \<^verbatim>\<open>bool\<close>: \<^verbatim>\<open>true\<close> is \<open>Accept\<close>, the plain
  \<^verbatim>\<open>return false\<close> is \<open>Ignore\<close>, and each \<^verbatim>\<open>return error(...)\<close> is a \<open>Reject\<close> with
  the reason its message gives. \<^verbatim>\<open>error\<close> and \<^verbatim>\<open>LogPrintf\<close> write a line to the debug log
  and touch none of the file's variables; the log is not part of the state below.
\<close>

datatype reject_reason =
  MissingIndexCurrent
| MissingIndexReceived
| Conflicting
| StructureFailure
| NotDescendant

datatype validate_result = Accept | Ignore | Reject reject_reason

text \<open>
  \<^verbatim>\<open>while (pindex->nHeight > h) if (!(pindex = pindex->pprev)) return error(...)\<close>:
  \<open>None\<close> when the walk meets a null parent, otherwise the entry where it stops.
\<close>

fun trace_back :: "int \<Rightarrow> CBlockIndex \<Rightarrow> CBlockIndex option" where
  "trace_back h (CBlockIndex hb pp n) =
     (if n > h
      then (case pp of None \<Rightarrow> None | Some p \<Rightarrow> trace_back h p)
      else Some (CBlockIndex hb pp n))"

definition ValidateSyncCheckpoint ::
  "uint256 \<Rightarrow> Chainstate \<Rightarrow> state \<Rightarrow> validate_result \<times> state" where
  "ValidateSyncCheckpoint hashCheckpoint' chainState s =
     (case m_block_index chainState (hashSyncCheckpoint s) of
        None \<Rightarrow> (Reject MissingIndexCurrent, s)
      | Some pindexSyncCheckpoint \<Rightarrow>
     (case m_block_index chainState hashCheckpoint' of
        None \<Rightarrow> (Reject MissingIndexReceived, s)
      | Some pindexCheckpointRecv \<Rightarrow>
          if nHeight pindexCheckpointRecv \<le> nHeight pindexSyncCheckpoint
          then
            (if \<not> Contains (m_chain chainState) pindexCheckpointRecv
             then (Reject Conflicting, s\<lparr>hashInvalidCheckpoint := hashCheckpoint'\<rparr>)
             else (Ignore, s))
          else
            (case trace_back (nHeight pindexSyncCheckpoint) pindexCheckpointRecv of
               None \<Rightarrow> (Reject StructureFailure, s)
             | Some pindex \<Rightarrow>
                 if GetBlockHash pindex \<noteq> hashSyncCheckpoint s
                 then (Reject NotDescendant, s\<lparr>hashInvalidCheckpoint := hashCheckpoint'\<rparr>)
                 else (Accept, s))))"

subsection \<open>WriteSyncCheckpoint\<close>

text \<open>
  The states the function passes through, in the order of its statements: the database
  write comes first, and when it fails nothing else happens; otherwise the chain state
  is flushed, and only then is \<open>hashSyncCheckpoint\<close> assigned.
\<close>

definition WriteSyncCheckpoint_steps :: "uint256 \<Rightarrow> Chainstate \<Rightarrow> state \<Rightarrow> state list" where
  "WriteSyncCheckpoint_steps hashCheckpoint' chainState s =
     (if \<not> block_tree_db_ok chainState then [s]
      else
        let s1 = s\<lparr>effects := effects s @ [DbWriteSyncCheckpoint hashCheckpoint']\<rparr>;
            s2 = s1\<lparr>effects := effects s1 @ [ForceFlushStateToDisk]\<rparr>;
            s3 = s2\<lparr>hashSyncCheckpoint := hashCheckpoint'\<rparr>
        in [s, s1, s2, s3])"

definition WriteSyncCheckpoint :: "uint256 \<Rightarrow> Chainstate \<Rightarrow> state \<Rightarrow> bool \<times> state" where
  "WriteSyncCheckpoint hashCheckpoint' chainState s =
     (block_tree_db_ok chainState,
      last (WriteSyncCheckpoint_steps hashCheckpoint' chainState s))"

text \<open>The hashes written to the database, oldest first, and the one it holds.\<close>

fun db_writes :: "effect list \<Rightarrow> uint256 list" where
  "db_writes [] = []"
| "db_writes (DbWriteSyncCheckpoint h # es) = h # db_writes es"
| "db_writes (e # es) = db_writes es"

definition stored :: "effect list \<Rightarrow> uint256 option" where
  "stored es = (case rev (db_writes es) of [] \<Rightarrow> None | h # _ \<Rightarrow> Some h)"

subsection \<open>AcceptPendingSyncCheckpoint\<close>

text \<open>
  \<^verbatim>\<open>g_connman\<close> is null when P2P is disabled; otherwise \<^verbatim>\<open>ForEachNode\<close> visits its
  nodes in order. \<^verbatim>\<open>havePendingCheckpoint\<close> holds when the pending hash is not zero and
  is in the block index; the entry found there is the one the function tests against
  the active chain after validation. The function returns \<^verbatim>\<open>true\<close> only after a commit.
\<close>

type_synonym CConnman = "CNode list"

definition ForEachNode_RelayTo :: "CConnman \<Rightarrow> CSyncCheckpoint \<Rightarrow> effect list" where
  "ForEachNode_RelayTo connman m = map (RelayTo m) connman"

definition AcceptPendingSyncCheckpoint ::
  "CConnman option \<Rightarrow> Chainstate \<Rightarrow> state \<Rightarrow> bool \<times> state" where
  "AcceptPendingSyncCheckpoint g_connman chainState s =
     (case (if hashPendingCheckpoint s \<noteq> 0
            then m_block_index chainState (hashPendingCheckpoint s) else None) of
        None \<Rightarrow> (False, s)
      | Some pindexPending \<Rightarrow>
     (case ValidateSyncCheckpoint (hashPendingCheckpoint s) chainState s of
        (r, s1) \<Rightarrow>
          if r \<noteq> Accept
          then (False, s1\<lparr>hashPendingCheckpoint := 0, checkpointMessagePending := SetNull\<rparr>)
          else if \<not> Contains (m_chain chainState) pindexPending then (False, s1)
          else
            (case WriteSyncCheckpoint (hashPendingCheckpoint s1) chainState s1 of
               (ok, s2) \<Rightarrow>
                 if \<not> ok then (False, s2)
                 else
                   let s3 = s2\<lparr>hashPendingCheckpoint := 0\<rparr>;
                       s4 = s3\<lparr>checkpointMessage := checkpointMessagePending s3\<rparr>;
                       s5 = s4\<lparr>checkpointMessagePending := SetNull\<rparr>
                   in (case g_connman of
                         None \<Rightarrow> (True, s5)
                       | Some connman \<Rightarrow>
                           if \<not> IsNull (checkpointMessage s5)
                           then (True, s5\<lparr>effects := effects s5 @
                                   ForEachNode_RelayTo connman (checkpointMessage s5)\<rparr>)
                           else (True, s5)))))"

subsection \<open>AutoSelectSyncCheckpoint\<close>

text \<open>
  The value of a C++ \<^verbatim>\<open>int\<close> expression: 32 bits, two's complement. It is used for the
  cast \<^verbatim>\<open>(int)gArgs.GetIntArg(...)\<close> of the 64-bit setting and for the sum
  \<^verbatim>\<open>pindex->nHeight + depth\<close>.
\<close>

definition int32 :: "int \<Rightarrow> int" where
  "int32 x = (x + 2147483648) mod 4294967296 - 2147483648"

datatype fault = NullPointer

text \<open>
  \<^verbatim>\<open>while (pindex->pprev && pindex->nHeight + depth > chain.Tip()->nHeight)\<close>
  \<^verbatim>\<open>pindex = pindex->pprev;\<close>
\<close>

fun search_backward :: "int \<Rightarrow> int \<Rightarrow> CBlockIndex \<Rightarrow> CBlockIndex" where
  "search_backward depth tipHeight (CBlockIndex hb pp n) =
     (case pp of
        None \<Rightarrow> CBlockIndex hb pp n
      | Some p \<Rightarrow>
          if int32 (n + depth) > tipHeight
          then search_backward depth tipHeight p
          else CBlockIndex hb pp n)"

text \<open>
  \<open>checkpointdepth\<close> is the value of \<^verbatim>\<open>gArgs.GetIntArg("-checkpointdepth", ...)\<close>.
  \<^verbatim>\<open>chain.Tip()\<close> is dereferenced without a check.
\<close>

definition AutoSelectSyncCheckpoint :: "int \<Rightarrow> CChain \<Rightarrow> fault + uint256" where
  "AutoSelectSyncCheckpoint checkpointdepth chain =
     (case Tip chain of
        None \<Rightarrow> Inl NullPointer
      | Some tip \<Rightarrow>
          Inr (GetBlockHash (search_backward (int32 checkpointdepth) (nHeight tip) tip)))"

subsection \<open>CheckSyncCheckpoint\<close>

text \<open>
  A failed \<^verbatim>\<open>assert\<close> aborts; every other error is a \<^verbatim>\<open>return error(...)\<close>, and
  \<open>Inr ()\<close> is \<^verbatim>\<open>return true\<close>.
\<close>

datatype check_error =
  AssertionFailed
| PprevNull
| OnlyDescendantsAccepted
| SameHeightWithSyncCheckpoint
| LowerHeightThanSyncCheckpoint

text \<open>
  \<^verbatim>\<open>while (pindex->nHeight > h && !chain.Contains(pindex))\<close>
  \<^verbatim>\<open>if (!(pindex = pindex->pprev)) return error(...)\<close>
\<close>

fun trace_back_chain :: "CChain \<Rightarrow> int \<Rightarrow> CBlockIndex \<Rightarrow> CBlockIndex option" where
  "trace_back_chain chain h (CBlockIndex hb pp n) =
     (if n > h \<and> \<not> Contains chain (CBlockIndex hb pp n)
      then (case pp of None \<Rightarrow> None | Some p \<Rightarrow> trace_back_chain chain h p)
      else Some (CBlockIndex hb pp n))"

definition CheckSyncCheckpoint ::
  "CBlockIndex option \<Rightarrow> Chainstate \<Rightarrow> state \<Rightarrow> check_error + unit" where
  "CheckSyncCheckpoint pindexNew' chainState s =
     (case pindexNew' of
        None \<Rightarrow> Inl AssertionFailed
      | Some pindexNew \<Rightarrow>
          if nHeight pindexNew = 0 then Inr ()
          else
            let hashBlock = GetBlockHash pindexNew;
                nHeight' = nHeight pindexNew
            in
            (case m_block_index chainState (hashSyncCheckpoint s) of
               None \<Rightarrow> Inl AssertionFailed
             | Some pindexSync \<Rightarrow>
                 if \<not> Contains (m_chain chainState) pindexSync then Inl AssertionFailed
                 else
                   (case (if nHeight' > nHeight pindexSync
                          then
                            (case trace_back_chain (m_chain chainState)
                                    (nHeight pindexSync) pindexNew of
                               None \<Rightarrow> Inl PprevNull
                             | Some pindex \<Rightarrow>
                                 if \<not> Contains (m_chain chainState) pindex
                                 then Inl OnlyDescendantsAccepted
                                 else Inr ())
                          else Inr ()) of
                      Inl e \<Rightarrow> Inl e
                    | Inr _ \<Rightarrow>
                        if nHeight' = nHeight pindexSync \<and> hashBlock \<noteq> hashSyncCheckpoint s
                        then Inl SameHeightWithSyncCheckpoint
                        else if nHeight' < nHeight pindexSync
                                \<and> m_block_index chainState hashBlock = None
                        then Inl LowerHeightThanSyncCheckpoint
                        else Inr ())))"

subsection \<open>CSyncCheckpoint::CheckSignature and ProcessSyncCheckpoint\<close>

text \<open>
  The signature primitives are outside this file: \<open>Verify msg sig\<close> stands for
  \<^verbatim>\<open>key.Verify(Hash(vchMsg), vchSig)\<close> with the master public key of the network
  parameters, and \<open>Unserialize\<close> for reading the unsigned checkpoint back from the
  signed bytes (\<open>None\<close> when the stream throws).
\<close>

record primitives =
  Verify :: "bytes \<Rightarrow> bytes \<Rightarrow> bool"
  Unserialize :: "bytes \<Rightarrow> uint256 option"

text \<open>
  The outcomes of \<open>ProcessSyncCheckpoint\<close>. The C++ function returns \<^verbatim>\<open>true\<close> for
  \<open>Committed\<close> only.
\<close>

datatype process_outcome =
  InvalidSignature
| Malformed
| UnknownBlock
| Rejected reject_reason
| Stale
| Deferred
| WriteFailed
| Committed

text \<open>
  On success the message object holds the hash read from the signed bytes; it is this
  object that \<open>ProcessSyncCheckpoint\<close> goes on with and stores. \<open>chainman\<close> stands for
  the \<^verbatim>\<open>ChainstateManager\<close>: \<^verbatim>\<open>BlockIndex()\<close>, \<^verbatim>\<open>ActiveChainstate()\<close> and \<^verbatim>\<open>ActiveChain()\<close>
  are the block index, the chain state and the chain of the one record.
\<close>

definition CheckSignature ::
  "primitives \<Rightarrow> CSyncCheckpoint \<Rightarrow> process_outcome + CSyncCheckpoint" where
  "CheckSignature pr this =
     (if \<not> Verify pr (vchMsg this) (vchSig this) then Inl InvalidSignature
      else
        (case Unserialize pr (vchMsg this) of
           None \<Rightarrow> Inl Malformed
         | Some h \<Rightarrow> Inr (this\<lparr>hashCheckpoint := h\<rparr>)))"

definition ProcessSyncCheckpoint ::
  "primitives \<Rightarrow> CSyncCheckpoint \<Rightarrow> Chainstate \<Rightarrow> state \<Rightarrow> process_outcome \<times> state" where
  "ProcessSyncCheckpoint pr this chainman s =
     (case CheckSignature pr this of
        Inl e \<Rightarrow> (e, s)
      | Inr this' \<Rightarrow>
     (case m_block_index chainman (hashCheckpoint this') of
        None \<Rightarrow> (UnknownBlock, s)
      | Some pindexCheckpoint \<Rightarrow>
     (case ValidateSyncCheckpoint (hashCheckpoint this') chainman s of
        (r, s1) \<Rightarrow>
          (case r of
             Reject reason \<Rightarrow> (Rejected reason, s1)
           | Ignore \<Rightarrow> (Stale, s1)
           | Accept \<Rightarrow>
               if \<not> Contains (m_chain chainman) pindexCheckpoint
               then (Deferred, s1\<lparr>hashPendingCheckpoint := hashCheckpoint this',
                                   checkpointMessagePending := this'\<rparr>)
               else
                 (case WriteSyncCheckpoint (hashCheckpoint this') chainman s1 of
                    (ok, s2) \<Rightarrow>
                      if \<not> ok then (WriteFailed, s2)
                      else (Committed, s2\<lparr>checkpointMessage := this',
                                            hashPendingCheckpoint := 0,
                                            checkpointMessagePending := SetNull\<rparr>))))))"

subsection \<open>Chains of parent links\<close>

text \<open>An entry followed by its parent, its grandparent, and so on to the last one.\<close>

fun ancestors :: "CBlockIndex \<Rightarrow> CBlockIndex list" where
  "ancestors (CBlockIndex hb pp n) =
     CBlockIndex hb pp n # (case pp of None \<Rightarrow> [] | Some p \<Rightarrow> ancestors p)"

text \<open>
  The block index keeps \<^verbatim>\<open>nHeight == pprev->nHeight + 1\<close> for every entry that has a
  parent. \<open>linked\<close> says so for an entry and all its ancestors; \<open>from_genesis\<close> says in
  addition that the entry without a parent is at height 0.
\<close>

fun linked :: "CBlockIndex \<Rightarrow> bool" where
  "linked (CBlockIndex hb pp n) =
     (case pp of None \<Rightarrow> True | Some p \<Rightarrow> nHeight p + 1 = n \<and> linked p)"

fun from_genesis :: "CBlockIndex \<Rightarrow> bool" where
  "from_genesis (CBlockIndex hb pp n) =
     (case pp of None \<Rightarrow> n = 0 | Some p \<Rightarrow> nHeight p + 1 = n \<and> from_genesis p)"

subsection \<open>A small block tree\<close>

text \<open>
  Genesis, two blocks on top of it that form the active chain, and a fork at height 1
  with a child at height 2; the fork is in the block index but not on the active chain.
\<close>

definition genesis :: CBlockIndex where
  "genesis = CBlockIndex 1 None 0"

definition block_a :: CBlockIndex where
  "block_a = CBlockIndex 2 (Some genesis) 1"

definition block_b :: CBlockIndex where
  "block_b = CBlockIndex 3 (Some block_a) 2"

definition fork_a :: CBlockIndex where
  "fork_a = CBlockIndex 4 (Some genesis) 1"

definition fork_b :: CBlockIndex where
  "fork_b = CBlockIndex 5 (Some fork_a) 2"

text \<open>An entry at height 2 whose parent links end early.\<close>

definition orphan :: CBlockIndex where
  "orphan = CBlockIndex 6 None 2"

text \<open>A block on top of the active tip that the active chain has not connected yet.\<close>

definition block_c :: CBlockIndex where
  "block_c = CBlockIndex 7 (Some block_b) 3"

definition active_chain :: CChain where
  "active_chain = \<lparr>Tip = Some block_b,
                    Contains = (\<lambda>p. p = genesis \<or> p = block_a \<or> p = block_b)\<rparr>"

definition chain_state :: Chainstate where
  "chain_state =
     \<lparr>m_block_index = [1 \<mapsto> genesis, 2 \<mapsto> block_a, 3 \<mapsto> block_b,
                        4 \<mapsto> fork_a, 5 \<mapsto> fork_b, 6 \<mapsto> orphan,
                        7 \<mapsto> block_c],
      m_chain = active_chain,
      block_tree_db_ok = True\<rparr>"

text \<open>A state whose active checkpoint is \<open>block_a\<close>, with nothing pending.\<close>

definition state_a :: state where
  "state_a = \<lparr>hashSyncCheckpoint = 2, hashPendingCheckpoint = 0,
              checkpointMessage = SetNull, checkpointMessagePending = SetNull,
              hashInvalidCheckpoint = 0, strCheckpointWarning = [], effects = []\<rparr>"

text \<open>
  Messages carry the checkpoint hash in the first byte of the signed bytes, and the
  signature that verifies is the single byte 1.
\<close>

definition toy_primitives :: primitives where
  "toy_primitives =
     \<lparr>Verify = (\<lambda>msg sig. sig = [1]),
      Unserialize = (\<lambda>msg. case msg of [] \<Rightarrow> None | b # _ \<Rightarrow> Some (ucast b))\<rparr>"

definition message_for :: "8 word \<Rightarrow> CSyncCheckpoint" where
  "message_for b = \<lparr>hashCheckpoint = 0, vchMsg = [b], vchSig = [1]\<rparr>"

text \<open>The same message once its signature has been checked, and a state holding it as
  the pending checkpoint.\<close>

definition checked_message :: "8 word \<Rightarrow> CSyncCheckpoint" where
  "checked_message b = \<lparr>hashCheckpoint = ucast b, vchMsg = [b], vchSig = [1]\<rparr>"

definition state_pending :: "8 word \<Rightarrow> state" where
  "state_pending b = state_a\<lparr>hashPendingCheckpoint := ucast b,
                             checkpointMessagePending := checked_message b\<rparr>"

text \<open>The chain state when the database refuses the write.\<close>

definition chain_state_db_down :: Chainstate where
  "chain_state_db_down = chain_state\<lparr>block_tree_db_ok := False\<rparr>"

section \<open>Properties\<close>

subsection \<open>Auxiliary facts\<close>

lemmas tree_defs = genesis_def block_a_def block_b_def block_c_def fork_a_def fork_b_def
  orphan_def active_chain_def chain_state_def state_a_def
  toy_primitives_def message_for_def checked_message_def state_pending_def

lemma int32_id: "- 2147483648 \<le> x \<Longrightarrow> x \<le> 2147483647 \<Longrightarrow> int32 x = x"
  by (simp add: int32_def)

text \<open>Along linked entries the walk of \<open>ValidateSyncCheckpoint\<close> stops exactly at the
  requested height, or runs out of parents.\<close>

lemma trace_back_find:
  "linked b \<Longrightarrow> h \<le> nHeight b \<Longrightarrow>
   trace_back h b = find (\<lambda>a. nHeight a = h) (ancestors b)"
  by (induction h b rule: trace_back.induct) (auto split: option.splits)

lemma ancestors_height_le:
  "linked b \<Longrightarrow> a \<in> set (ancestors b) \<Longrightarrow> nHeight a \<le> nHeight b"
  by (induction b rule: ancestors.induct) (auto split: option.splits)

lemma ancestors_not_empty: "ancestors b \<noteq> []"
  by (cases b) simp

lemma last_ancestors_root: "pprev (last (ancestors b)) = None"
proof (induction b rule: ancestors.induct)
  case (1 hb pp n)
  show ?case
  proof (cases pp)
    case None
    then show ?thesis by simp
  next
    case (Some p)
    with 1 show ?thesis by (simp add: ancestors_not_empty)
  qed
qed

text \<open>The walk of \<open>CheckSyncCheckpoint\<close> followed by its test, on linked entries.\<close>

lemma trace_back_chain_linked:
  "linked b \<Longrightarrow> h \<le> nHeight b \<Longrightarrow>
   (case trace_back_chain chain h b of
      None \<Rightarrow> Inl PprevNull
    | Some p \<Rightarrow> if \<not> Contains chain p then Inl OnlyDescendantsAccepted else Inr ()) =
   (if \<exists>a\<in>set (ancestors b). h \<le> nHeight a \<and> Contains chain a then Inr ()
    else if \<exists>a\<in>set (ancestors b). nHeight a = h then Inl OnlyDescendantsAccepted
    else Inl PprevNull)"
proof (induction chain h b rule: trace_back_chain.induct)
  case (1 chain h hb pp n)
  let ?b = "CBlockIndex hb pp n"
  show ?case
  proof (cases "n > h \<and> \<not> Contains chain ?b")
    case True
    show ?thesis
    proof (cases pp)
      case None
      with True show ?thesis by simp
    next
      case (Some p)
      with 1 True have "linked p" "h \<le> nHeight p" by auto
      with "1.IH" [OF True Some] True Some show ?thesis by auto
    qed
  next
    case False
    with "1.prems" have stop: "n = h \<or> Contains chain ?b" by auto
    show ?thesis
    proof (cases "Contains chain ?b")
      case True
      with "1.prems" show ?thesis by auto
    next
      case outside: False
      with stop have n: "n = h" by simp
      have "\<not> (\<exists>a\<in>set (ancestors ?b). h \<le> nHeight a \<and> Contains chain a)"
      proof (cases pp)
        case None
        with outside show ?thesis by simp
      next
        case (Some p)
        with "1.prems" have "linked p" "nHeight p < h" using n by auto
        then have "\<forall>a\<in>set (ancestors p). nHeight a < h"
          using ancestors_height_le by fastforce
        with outside Some show ?thesis by auto
      qed
      with outside n show ?thesis by simp
    qed
  qed
qed

text \<open>The search of \<open>AutoSelectSyncCheckpoint\<close> when no 32-bit sum overflows.\<close>

lemma from_genesis_nonneg: "from_genesis b \<Longrightarrow> 0 \<le> nHeight b"
  by (induction b rule: from_genesis.induct) (auto split: option.splits)

lemma search_backward_hit:
  "from_genesis b \<Longrightarrow> nHeight b \<le> T \<Longrightarrow> 0 \<le> d \<Longrightarrow> T + d \<le> 2147483647 \<Longrightarrow>
   T - d \<le> nHeight b \<Longrightarrow> 0 \<le> T - d \<Longrightarrow>
   find (\<lambda>a. nHeight a = T - d) (ancestors b) = Some (search_backward d T b)"
proof (induction d T b rule: search_backward.induct)
  case (1 d T hb pp n)
  show ?case
  proof (cases pp)
    case None
    with "1.prems" show ?thesis by simp
  next
    case (Some p)
    from "1.prems" Some have p: "from_genesis p" "nHeight p + 1 = n" by auto
    then have "0 \<le> nHeight p" by (simp add: from_genesis_nonneg)
    with p "1.prems" have wrap: "int32 (n + d) = n + d"
      by (intro int32_id) auto
    show ?thesis
    proof (cases "int32 (n + d) > T")
      case True
      with "1.IH" [OF Some True] p "1.prems" wrap Some show ?thesis by auto
    next
      case False
      with "1.prems" wrap Some show ?thesis by auto
    qed
  qed
qed

lemma search_backward_root:
  "from_genesis b \<Longrightarrow> nHeight b \<le> T \<Longrightarrow> 0 \<le> d \<Longrightarrow> T + d \<le> 2147483647 \<Longrightarrow>
   T < d \<Longrightarrow> search_backward d T b = last (ancestors b)"
proof (induction d T b rule: search_backward.induct)
  case (1 d T hb pp n)
  show ?case
  proof (cases pp)
    case None
    then show ?thesis by simp
  next
    case (Some p)
    from "1.prems" Some have p: "from_genesis p" "nHeight p + 1 = n" by auto
    then have nn: "0 \<le> nHeight p" by (simp add: from_genesis_nonneg)
    with p "1.prems" have wrap: "int32 (n + d) = n + d"
      by (intro int32_id) auto
    with nn p "1.prems" have True: "int32 (n + d) > T" by auto
    with "1.IH" [OF Some True] p "1.prems" Some show ?thesis
      by (auto simp: ancestors_not_empty)
  qed
qed

text \<open>What validation leaves in the state.\<close>

lemma validate_accept_state:
  "fst (ValidateSyncCheckpoint h chainState s) = Accept \<Longrightarrow>
   ValidateSyncCheckpoint h chainState s = (Accept, s)"
  by (auto simp: ValidateSyncCheckpoint_def split: option.splits if_splits)

lemma validate_conflict_state:
  "fst (ValidateSyncCheckpoint h chainState s) = Reject r \<Longrightarrow>
   r = Conflicting \<or> r = NotDescendant \<Longrightarrow>
   ValidateSyncCheckpoint h chainState s = (Reject r, s\<lparr>hashInvalidCheckpoint := h\<rparr>)"
  by (auto simp: ValidateSyncCheckpoint_def split: option.splits if_splits)

lemma validate_keeps:
  "effects (snd (ValidateSyncCheckpoint h chainState s)) = effects s"
  "hashSyncCheckpoint (snd (ValidateSyncCheckpoint h chainState s)) = hashSyncCheckpoint s"
  "hashPendingCheckpoint (snd (ValidateSyncCheckpoint h chainState s)) =
     hashPendingCheckpoint s"
  by (auto simp: ValidateSyncCheckpoint_def split: option.splits if_splits)

text \<open>The two outcomes of \<open>WriteSyncCheckpoint\<close>.\<close>

lemma write_ok:
  "block_tree_db_ok chainState \<Longrightarrow>
   WriteSyncCheckpoint h chainState s =
     (True, s\<lparr>effects := effects s @ [DbWriteSyncCheckpoint h, ForceFlushStateToDisk],
              hashSyncCheckpoint := h\<rparr>)"
  by (simp add: WriteSyncCheckpoint_def WriteSyncCheckpoint_steps_def Let_def)

lemma write_failed:
  "\<not> block_tree_db_ok chainState \<Longrightarrow> WriteSyncCheckpoint h chainState s = (False, s)"
  by (simp add: WriteSyncCheckpoint_def WriteSyncCheckpoint_steps_def)

lemma db_writes_append: "db_writes (xs @ ys) = db_writes xs @ db_writes ys"
  by (induction xs rule: db_writes.induct) simp_all

lemma db_writes_relay: "db_writes (map (RelayTo m) ns) = []"
  by (induction ns) simp_all

text \<open>The signature check reads the signed bytes and the signature only.\<close>

lemma check_signature_bytes:
  "vchMsg again = vchMsg this \<Longrightarrow> vchSig again = vchSig this \<Longrightarrow>
   CheckSignature pr this = Inr this' \<Longrightarrow>
   \<exists>again'. CheckSignature pr again = Inr again'
     \<and> hashCheckpoint again' = hashCheckpoint this'"
  by (auto simp: CheckSignature_def split: if_splits option.splits)

lemma process_committed_cases:
  assumes "ProcessSyncCheckpoint pr this chainman s = (Committed, s')"
  obtains this' pindex where
    "CheckSignature pr this = Inr this'"
    "m_block_index chainman (hashCheckpoint this') = Some pindex"
    "Contains (m_chain chainman) pindex"
    "hashSyncCheckpoint s' = hashCheckpoint this'"
  using assms
  by (auto simp: ProcessSyncCheckpoint_def CheckSignature_def WriteSyncCheckpoint_def
      WriteSyncCheckpoint_steps_def Let_def
      split: sum.splits option.splits prod.splits validate_result.splits if_splits)

lemma process_again_stale:
  assumes "CheckSignature pr again = Inr again'"
    and "m_block_index chainman (hashCheckpoint again') = Some pindex"
    and "Contains (m_chain chainman) pindex"
    and "hashSyncCheckpoint s' = hashCheckpoint again'"
  shows "ProcessSyncCheckpoint pr again chainman s' = (Stale, s')"
  using assms by (simp add: ProcessSyncCheckpoint_def ValidateSyncCheckpoint_def)

text \<open>
  The pending message belongs to the pending hash: it is so when both are empty, and
  the two functions that assign them keep it so.
\<close>

lemma process_keeps_pending_message:
  assumes "hashCheckpoint (checkpointMessagePending s) = hashPendingCheckpoint s"
  shows "hashCheckpoint (checkpointMessagePending (snd (ProcessSyncCheckpoint pr this chainman s)))
         = hashPendingCheckpoint (snd (ProcessSyncCheckpoint pr this chainman s))"
  using assms
  by (auto simp: ProcessSyncCheckpoint_def ValidateSyncCheckpoint_def WriteSyncCheckpoint_def
      WriteSyncCheckpoint_steps_def Let_def SetNull_def
      split: sum.splits option.splits validate_result.splits if_splits)

lemma accept_pending_keeps_pending_message:
  assumes "hashCheckpoint (checkpointMessagePending s) = hashPendingCheckpoint s"
  shows "hashCheckpoint (checkpointMessagePending
           (snd (AcceptPendingSyncCheckpoint g_connman chainState s)))
         = hashPendingCheckpoint (snd (AcceptPendingSyncCheckpoint g_connman chainState s))"
  using assms
  by (auto simp: AcceptPendingSyncCheckpoint_def ValidateSyncCheckpoint_def
      WriteSyncCheckpoint_def WriteSyncCheckpoint_steps_def Let_def SetNull_def
      split: option.splits if_splits)

text \<open>Whatever the outcome, \<open>ProcessSyncCheckpoint\<close> adds at most the database write and
  the flush to the effects.\<close>

lemma process_effects:
  "effects (snd (ProcessSyncCheckpoint pr this chainman s)) = effects s
   \<or> (\<exists>h. effects (snd (ProcessSyncCheckpoint pr this chainman s)) =
            effects s @ [DbWriteSyncCheckpoint h, ForceFlushStateToDisk])"
  by (auto simp: ProcessSyncCheckpoint_def ValidateSyncCheckpoint_def WriteSyncCheckpoint_def
      WriteSyncCheckpoint_steps_def Let_def
      split: sum.splits option.splits validate_result.splits if_splits)

subsection \<open>Older or equal-height candidates\<close>

text \<open>
  C1. When both the active checkpoint and the candidate resolve in the block index and
  the candidate is not higher than the active checkpoint, validation rejects the
  candidate as conflicting and records it in \<open>hashInvalidCheckpoint\<close> exactly when the
  active chain does not contain the candidate block; when the chain contains it, the
  candidate is ignored and the state, the invalid field included, is unchanged.
\<close>

theorem validate_not_newer:
  assumes "m_block_index chainState (hashSyncCheckpoint s) = Some pindexSync"
    and "m_block_index chainState cand = Some pindexRecv"
    and "nHeight pindexRecv \<le> nHeight pindexSync"
  shows "ValidateSyncCheckpoint cand chainState s =
           (if Contains (m_chain chainState) pindexRecv
            then (Ignore, s)
            else (Reject Conflicting, s\<lparr>hashInvalidCheckpoint := cand\<rparr>))"
  using assms by (simp add: ValidateSyncCheckpoint_def)

text \<open>With \<open>block_a\<close> as the active checkpoint: the fork at the same height conflicts,
  and the genesis block, which is on the active chain, is ignored.\<close>

theorem validate_not_newer_witness:
  "nHeight fork_a \<le> nHeight block_a
   \<and> ValidateSyncCheckpoint 4 chain_state state_a =
       (Reject Conflicting, state_a\<lparr>hashInvalidCheckpoint := 4\<rparr>)
   \<and> ValidateSyncCheckpoint 1 chain_state state_a = (Ignore, state_a)"
proof -
  have current: "m_block_index chain_state (hashSyncCheckpoint state_a) = Some block_a"
    by (simp add: tree_defs)
  have fork: "m_block_index chain_state 4 = Some fork_a"
    and root: "m_block_index chain_state 1 = Some genesis"
    by (simp_all add: tree_defs)
  have older: "nHeight fork_a \<le> nHeight block_a" "nHeight genesis \<le> nHeight block_a"
    by (simp_all add: tree_defs)
  have chain: "\<not> Contains (m_chain chain_state) fork_a"
    "Contains (m_chain chain_state) genesis"
    by (simp_all add: tree_defs)
  show ?thesis
    using validate_not_newer [OF current fork older(1)]
      validate_not_newer [OF current root older(2)] older(1) chain
    by simp
qed

subsection \<open>Newer candidates\<close>

text \<open>
  C2. When both hashes resolve and the candidate is strictly higher than the active
  checkpoint, validation looks at the candidate's ancestor at the height of the active
  checkpoint. It accepts exactly when that ancestor's hash is the active checkpoint;
  when the hash differs it records the candidate in \<open>hashInvalidCheckpoint\<close> and rejects
  it as not a descendant; when the parent links end before that height it reports a
  structure failure. Heights go down by one along parent links (\<open>linked\<close>), so "the
  ancestor at that height" is the one entry of that height among the ancestors.
\<close>

theorem validate_newer:
  assumes "m_block_index chainState (hashSyncCheckpoint s) = Some pindexSync"
    and "m_block_index chainState cand = Some pindexRecv"
    and "nHeight pindexSync < nHeight pindexRecv"
    and "linked pindexRecv"
  shows "ValidateSyncCheckpoint cand chainState s =
     (case find (\<lambda>a. nHeight a = nHeight pindexSync) (ancestors pindexRecv) of
        None \<Rightarrow> (Reject StructureFailure, s)
      | Some pindex \<Rightarrow>
          if GetBlockHash pindex = hashSyncCheckpoint s then (Accept, s)
          else (Reject NotDescendant, s\<lparr>hashInvalidCheckpoint := cand\<rparr>))"
proof -
  have "trace_back (nHeight pindexSync) pindexRecv =
        find (\<lambda>a. nHeight a = nHeight pindexSync) (ancestors pindexRecv)"
    using assms(3,4) by (simp add: trace_back_find)
  then show ?thesis
    using assms(1,2,3) by (simp add: ValidateSyncCheckpoint_def split: option.splits)
qed

text \<open>With \<open>block_a\<close> as the active checkpoint: its child is accepted, the child of
  the fork is not a descendant, and the entry without parents is a structure failure.\<close>

theorem validate_newer_witness:
  "nHeight block_a < nHeight block_b \<and> linked block_b
   \<and> ValidateSyncCheckpoint 3 chain_state state_a = (Accept, state_a)
   \<and> ValidateSyncCheckpoint 5 chain_state state_a =
       (Reject NotDescendant, state_a\<lparr>hashInvalidCheckpoint := 5\<rparr>)
   \<and> ValidateSyncCheckpoint 6 chain_state state_a = (Reject StructureFailure, state_a)"
proof -
  have current: "m_block_index chain_state (hashSyncCheckpoint state_a) = Some block_a"
    by (simp add: tree_defs)
  have known: "m_block_index chain_state 3 = Some block_b"
    "m_block_index chain_state 5 = Some fork_b"
    "m_block_index chain_state 6 = Some orphan"
    by (simp_all add: tree_defs)
  have higher: "nHeight block_a < nHeight block_b" "nHeight block_a < nHeight fork_b"
    "nHeight block_a < nHeight orphan"
    by (simp_all add: tree_defs)
  have links: "linked block_b" "linked fork_b" "linked orphan"
    by (simp_all add: tree_defs)
  show ?thesis
    using validate_newer [OF current known(1) higher(1) links(1)]
      validate_newer [OF current known(2) higher(2) links(2)]
      validate_newer [OF current known(3) higher(3) links(3)] higher(1) links(1)
    by (simp add: tree_defs GetBlockHash_def)
qed

subsection \<open>Enforcement on new blocks\<close>

text \<open>
  C4. For a candidate block strictly higher than the active checkpoint,
  \<open>CheckSyncCheckpoint\<close> accepts if and only if the candidate or one of its ancestors,
  at a height not below the checkpoint's, is contained in the active chain. Otherwise
  it fails with "only descendants of checkpoint accepted", unless the parent links end
  above the checkpoint's height, which is the structure failure. The function asserts
  that the active checkpoint is in the block index and on the active chain; heights are
  not negative and go down by one along parent links.
\<close>

theorem check_above_checkpoint:
  assumes "m_block_index chainState (hashSyncCheckpoint s) = Some pindexSync"
    and "Contains (m_chain chainState) pindexSync"
    and "0 \<le> nHeight pindexSync"
    and "nHeight pindexSync < nHeight pindexNew"
    and "linked pindexNew"
  shows "CheckSyncCheckpoint (Some pindexNew) chainState s =
     (if \<exists>a\<in>set (ancestors pindexNew).
            nHeight pindexSync \<le> nHeight a \<and> Contains (m_chain chainState) a
      then Inr ()
      else if \<exists>a\<in>set (ancestors pindexNew). nHeight a = nHeight pindexSync
      then Inl OnlyDescendantsAccepted
      else Inl PprevNull)"
proof -
  let ?walk = "case trace_back_chain (m_chain chainState) (nHeight pindexSync) pindexNew of
      None \<Rightarrow> Inl PprevNull
    | Some p \<Rightarrow>
        if \<not> Contains (m_chain chainState) p then Inl OnlyDescendantsAccepted
        else Inr ()"
  have "CheckSyncCheckpoint (Some pindexNew) chainState s =
        (case ?walk of Inl e \<Rightarrow> Inl e | Inr _ \<Rightarrow> Inr ())"
    using assms(1,2,3,4) by (simp add: CheckSyncCheckpoint_def Let_def)
  also have "\<dots> = ?walk"
    by (cases ?walk) simp_all
  also have "?walk =
     (if \<exists>a\<in>set (ancestors pindexNew).
            nHeight pindexSync \<le> nHeight a \<and> Contains (m_chain chainState) a
      then Inr ()
      else if \<exists>a\<in>set (ancestors pindexNew). nHeight a = nHeight pindexSync
      then Inl OnlyDescendantsAccepted
      else Inl PprevNull)"
    using assms(4,5) by (intro trace_back_chain_linked) simp_all
  finally show ?thesis .
qed

text \<open>With \<open>block_a\<close> as the active checkpoint: the block on top of the active tip
  passes, the child of the fork is refused, and the entry without parents is a
  structure failure.\<close>

theorem check_above_checkpoint_witness:
  "Contains (m_chain chain_state) block_a \<and> nHeight block_a < nHeight block_c
   \<and> linked block_c
   \<and> CheckSyncCheckpoint (Some block_c) chain_state state_a = Inr ()
   \<and> CheckSyncCheckpoint (Some fork_b) chain_state state_a = Inl OnlyDescendantsAccepted
   \<and> CheckSyncCheckpoint (Some orphan) chain_state state_a = Inl PprevNull"
proof -
  have current: "m_block_index chain_state (hashSyncCheckpoint state_a) = Some block_a"
    and active: "Contains (m_chain chain_state) block_a"
    and height: "0 \<le> nHeight block_a"
    by (simp_all add: tree_defs)
  have higher: "nHeight block_a < nHeight block_c" "nHeight block_a < nHeight fork_b"
    "nHeight block_a < nHeight orphan"
    by (simp_all add: tree_defs)
  have links: "linked block_c" "linked fork_b" "linked orphan"
    by (simp_all add: tree_defs)
  show ?thesis
    using check_above_checkpoint [OF current active height higher(1) links(1)]
      check_above_checkpoint [OF current active height higher(2) links(2)]
      check_above_checkpoint [OF current active height higher(3) links(3)]
      active higher(1) links(1)
    by (simp add: tree_defs)
qed

subsection \<open>Automatic selection\<close>

text \<open>
  C10 as stated fails for large depths. The sum \<^verbatim>\<open>pindex->nHeight + depth\<close> is a 32-bit
  \<^verbatim>\<open>int\<close>: with the depth 2147483647 on the chain of tip height 2 it wraps to a
  negative number at the tip, the loop stops at once, and the tip itself is selected,
  although the chain is shorter than the depth and the genesis block was claimed.
\<close>

theorem auto_select_overflow:
  "Tip active_chain = Some block_b \<and> from_genesis block_b
   \<and> nHeight block_b < 2147483647
   \<and> AutoSelectSyncCheckpoint 2147483647 active_chain = Inr (GetBlockHash block_b)
   \<and> GetBlockHash block_b \<noteq> GetBlockHash (last (ancestors block_b))"
  by (simp add: AutoSelectSyncCheckpoint_def int32_def GetBlockHash_def tree_defs)

text \<open>
  C10 (amended). For a depth \<open>d \<ge> 0\<close> and a chain from genesis with tip height \<open>T\<close> such
  that \<open>T + d\<close> fits a 32-bit \<^verbatim>\<open>int\<close>, \<open>AutoSelectSyncCheckpoint\<close> returns the hash of
  the block at height \<open>T - d\<close> when \<open>d \<le> T\<close>, and the hash of the genesis block, the
  one without a parent, when the chain is shorter than \<open>d\<close>.
\<close>

theorem auto_select_depth:
  assumes "Tip chain = Some tip"
    and "from_genesis tip"
    and "0 \<le> d"
    and "nHeight tip + d \<le> 2147483647"
  shows "if d \<le> nHeight tip
         then \<exists>b. find (\<lambda>a. nHeight a = nHeight tip - d) (ancestors tip) = Some b
                \<and> AutoSelectSyncCheckpoint d chain = Inr (GetBlockHash b)
         else AutoSelectSyncCheckpoint d chain = Inr (GetBlockHash (last (ancestors tip)))
              \<and> pprev (last (ancestors tip)) = None"
proof -
  have "0 \<le> nHeight tip" using assms(2) by (rule from_genesis_nonneg)
  with assms(3,4) have cast: "int32 d = d" by (intro int32_id) auto
  show ?thesis
  proof (cases "d \<le> nHeight tip")
    case True
    with assms have "find (\<lambda>a. nHeight a = nHeight tip - d) (ancestors tip) =
        Some (search_backward d (nHeight tip) tip)"
      by (intro search_backward_hit) auto
    with True cast assms(1) show ?thesis
      by (simp add: AutoSelectSyncCheckpoint_def)
  next
    case False
    with assms have "search_backward d (nHeight tip) tip = last (ancestors tip)"
      by (intro search_backward_root) auto
    with False cast assms(1) show ?thesis
      by (simp add: AutoSelectSyncCheckpoint_def last_ancestors_root)
  qed
qed

text \<open>On the chain of tip height 2: depth 1 selects \<open>block_a\<close>, depth 5 the genesis
  block.\<close>

theorem auto_select_depth_witness:
  "Tip active_chain = Some block_b \<and> from_genesis block_b
   \<and> AutoSelectSyncCheckpoint 1 active_chain = Inr 2
   \<and> AutoSelectSyncCheckpoint 5 active_chain = Inr 1"
proof -
  have tip: "Tip active_chain = Some block_b" and chain: "from_genesis block_b"
    by (simp_all add: tree_defs)
  have fits: "nHeight block_b + 1 \<le> 2147483647" "nHeight block_b + 5 \<le> 2147483647"
    by (simp_all add: tree_defs)
  show ?thesis
    using auto_select_depth [OF tip chain _ fits(1)] auto_select_depth [OF tip chain _ fits(2)]
      tip chain
    by (simp add: tree_defs GetBlockHash_def)
qed

subsection \<open>Writing the checkpoint\<close>

text \<open>
  C5. When the database write fails, \<open>WriteSyncCheckpoint\<close> reports failure and leaves
  the state, \<open>hashSyncCheckpoint\<close> included, as it was. In every state the function
  passes through, \<open>hashSyncCheckpoint\<close> differs from its old value only if the write
  succeeded and the database already holds the new hash: the memory is never ahead of
  the store. When the function reports success, both hold the new hash.
\<close>

theorem write_checkpoint_store_first:
  "(\<not> block_tree_db_ok chainState \<longrightarrow> WriteSyncCheckpoint h chainState s = (False, s))
   \<and> (\<forall>t \<in> set (WriteSyncCheckpoint_steps h chainState s).
        hashSyncCheckpoint t \<noteq> hashSyncCheckpoint s \<longrightarrow>
        block_tree_db_ok chainState \<and> stored (effects t) = Some h)
   \<and> (fst (WriteSyncCheckpoint h chainState s) \<longrightarrow>
        hashSyncCheckpoint (snd (WriteSyncCheckpoint h chainState s)) = h
        \<and> stored (effects (snd (WriteSyncCheckpoint h chainState s))) = Some h)"
  by (simp add: WriteSyncCheckpoint_def WriteSyncCheckpoint_steps_def stored_def
      db_writes_append Let_def)

text \<open>Writing the hash of \<open>block_b\<close> over the checkpoint \<open>block_a\<close>: with the database
  down nothing changes; otherwise the last state passed through has the new hash in
  memory and in the store.\<close>

theorem write_checkpoint_store_first_witness:
  "\<not> block_tree_db_ok chain_state_db_down
   \<and> WriteSyncCheckpoint 3 chain_state_db_down state_a = (False, state_a)
   \<and> fst (WriteSyncCheckpoint 3 chain_state state_a)
   \<and> hashSyncCheckpoint (snd (WriteSyncCheckpoint 3 chain_state state_a)) = 3
   \<and> stored (effects (snd (WriteSyncCheckpoint 3 chain_state state_a))) = Some 3
   \<and> hashSyncCheckpoint (last (WriteSyncCheckpoint_steps 3 chain_state state_a))
       \<noteq> hashSyncCheckpoint state_a
   \<and> stored (effects (last (WriteSyncCheckpoint_steps 3 chain_state state_a))) = Some 3"
proof -
  have down: "\<not> block_tree_db_ok chain_state_db_down"
    and up: "fst (WriteSyncCheckpoint 3 chain_state state_a)"
    by (simp_all add: WriteSyncCheckpoint_def chain_state_db_down_def tree_defs)
  have final: "last (WriteSyncCheckpoint_steps 3 chain_state state_a)
      \<in> set (WriteSyncCheckpoint_steps 3 chain_state state_a)"
    by (simp add: WriteSyncCheckpoint_steps_def Let_def tree_defs)
  have moved: "hashSyncCheckpoint (last (WriteSyncCheckpoint_steps 3 chain_state state_a))
      \<noteq> hashSyncCheckpoint state_a"
    by (simp add: WriteSyncCheckpoint_steps_def Let_def tree_defs)
  show ?thesis
    using write_checkpoint_store_first [of chain_state_db_down 3 state_a]
      write_checkpoint_store_first [of chain_state 3 state_a] down up final moved
    by blast
qed

subsection \<open>Processing a received checkpoint\<close>

text \<open>
  C3 as stated fails: \<open>ProcessSyncCheckpoint\<close> does not relay. Committing the checkpoint
  \<open>block_b\<close> over \<open>block_a\<close> writes the hash and flushes, and these are all its effects;
  there is no call of \<^verbatim>\<open>RelayTo\<close>. In the file the relay after a successful call is left
  to the caller, as \<^verbatim>\<open>SendSyncCheckpoint\<close> does.
\<close>

theorem process_commit_relays_nothing:
  "fst (ProcessSyncCheckpoint toy_primitives (message_for 3) chain_state state_a) = Committed
   \<and> effects (snd (ProcessSyncCheckpoint toy_primitives (message_for 3) chain_state state_a))
       = [DbWriteSyncCheckpoint 3, ForceFlushStateToDisk]"
  by (simp add: ProcessSyncCheckpoint_def CheckSignature_def ValidateSyncCheckpoint_def
      WriteSyncCheckpoint_def WriteSyncCheckpoint_steps_def Let_def GetBlockHash_def
      tree_defs)

text \<open>
  C3 (amended). When the signature of a message verifies, its block is in the block
  index, validation accepts it and the block is on the active chain,
  \<open>ProcessSyncCheckpoint\<close> commits if the database accepts the write: it returns
  \<open>Committed\<close>, it has written the hash to the database and flushed, the active
  checkpoint is the message's hash, the active message is this message, and the pending
  hash and pending message are cleared. If the database refuses the write it reports
  the failure and changes nothing. It relays nothing itself.
\<close>

theorem process_commits_on_active_chain:
  assumes "CheckSignature pr this = Inr this'"
    and "m_block_index chainman (hashCheckpoint this') = Some pindex"
    and "fst (ValidateSyncCheckpoint (hashCheckpoint this') chainman s) = Accept"
    and "Contains (m_chain chainman) pindex"
  shows "ProcessSyncCheckpoint pr this chainman s =
     (if block_tree_db_ok chainman
      then (Committed,
            s\<lparr>effects := effects s @ [DbWriteSyncCheckpoint (hashCheckpoint this'),
                                      ForceFlushStateToDisk],
              hashSyncCheckpoint := hashCheckpoint this',
              checkpointMessage := this',
              hashPendingCheckpoint := 0,
              checkpointMessagePending := SetNull\<rparr>)
      else (WriteFailed, s))"
  using assms validate_accept_state [OF assms(3)]
  by (simp add: ProcessSyncCheckpoint_def write_ok write_failed)

text \<open>The message for \<open>block_b\<close> over the checkpoint \<open>block_a\<close>, with the database up
  and with the database down.\<close>

theorem process_commits_on_active_chain_witness:
  "CheckSignature toy_primitives (message_for 3) = Inr (checked_message 3)
   \<and> Contains (m_chain chain_state) block_b
   \<and> ProcessSyncCheckpoint toy_primitives (message_for 3) chain_state state_a =
     (Committed,
      state_a\<lparr>effects := [DbWriteSyncCheckpoint 3, ForceFlushStateToDisk],
              hashSyncCheckpoint := 3,
              checkpointMessage := checked_message 3\<rparr>)
   \<and> ProcessSyncCheckpoint toy_primitives (message_for 3) chain_state_db_down state_a =
     (WriteFailed, state_a)"
proof -
  have sig: "CheckSignature toy_primitives (message_for 3) = Inr (checked_message 3)"
    by (simp add: CheckSignature_def tree_defs)
  have known: "m_block_index chain_state (hashCheckpoint (checked_message 3)) = Some block_b"
    "m_block_index chain_state_db_down (hashCheckpoint (checked_message 3)) = Some block_b"
    by (simp_all add: chain_state_db_down_def tree_defs)
  have valid: "fst (ValidateSyncCheckpoint (hashCheckpoint (checked_message 3))
      chain_state state_a) = Accept"
    "fst (ValidateSyncCheckpoint (hashCheckpoint (checked_message 3))
      chain_state_db_down state_a) = Accept"
    by (simp_all add: ValidateSyncCheckpoint_def GetBlockHash_def chain_state_db_down_def
        tree_defs)
  have active: "Contains (m_chain chain_state) block_b"
    "Contains (m_chain chain_state_db_down) block_b"
    by (simp_all add: chain_state_db_down_def tree_defs)
  have db: "block_tree_db_ok chain_state" "\<not> block_tree_db_ok chain_state_db_down"
    by (simp_all add: chain_state_db_down_def tree_defs)
  show ?thesis
    using process_commits_on_active_chain [OF sig known(1) valid(1) active(1)]
      process_commits_on_active_chain [OF sig known(2) valid(2) active(2)]
      sig active(1) db
    by (simp add: state_a_def checked_message_def SetNull_def)
qed

text \<open>
  C6. When the signature of a message verifies, its block is in the block index and
  validation accepts it, but the block is not on the active chain,
  \<open>ProcessSyncCheckpoint\<close> returns \<open>Deferred\<close> and the only change is that the pending
  hash and the pending message are this message's: nothing is written to the database
  and the active checkpoint stays.
\<close>

theorem process_defers_off_chain:
  assumes "CheckSignature pr this = Inr this'"
    and "m_block_index chainman (hashCheckpoint this') = Some pindex"
    and "fst (ValidateSyncCheckpoint (hashCheckpoint this') chainman s) = Accept"
    and "\<not> Contains (m_chain chainman) pindex"
  shows "ProcessSyncCheckpoint pr this chainman s =
           (Deferred, s\<lparr>hashPendingCheckpoint := hashCheckpoint this',
                        checkpointMessagePending := this'\<rparr>)
         \<and> effects (snd (ProcessSyncCheckpoint pr this chainman s)) = effects s
         \<and> hashSyncCheckpoint (snd (ProcessSyncCheckpoint pr this chainman s)) =
             hashSyncCheckpoint s"
  using assms validate_accept_state [OF assms(3)]
  by (simp add: ProcessSyncCheckpoint_def)

text \<open>The checkpoint \<open>block_c\<close> descends from \<open>block_a\<close> but is not connected yet.\<close>

theorem process_defers_off_chain_witness:
  "CheckSignature toy_primitives (message_for 7) = Inr (checked_message 7)
   \<and> \<not> Contains (m_chain chain_state) block_c
   \<and> ProcessSyncCheckpoint toy_primitives (message_for 7) chain_state state_a =
       (Deferred, state_pending 7)"
proof -
  have sig: "CheckSignature toy_primitives (message_for 7) = Inr (checked_message 7)"
    by (simp add: CheckSignature_def tree_defs)
  have known: "m_block_index chain_state (hashCheckpoint (checked_message 7)) = Some block_c"
    by (simp add: tree_defs)
  have valid: "fst (ValidateSyncCheckpoint (hashCheckpoint (checked_message 7))
      chain_state state_a) = Accept"
    by (simp add: ValidateSyncCheckpoint_def GetBlockHash_def tree_defs)
  have outside: "\<not> Contains (m_chain chain_state) block_c"
    by (simp add: tree_defs)
  show ?thesis
    using process_defers_off_chain [OF sig known valid outside] sig outside
    by (simp add: tree_defs)
qed


subsection \<open>Accepting the pending checkpoint\<close>

text \<open>
  C7 as stated fails when the database refuses the write: the pending checkpoint
  \<open>block_b\<close> is on the active chain and passes validation, yet
  \<open>AcceptPendingSyncCheckpoint\<close> returns \<^verbatim>\<open>false\<close> and leaves the state as it was, the
  checkpoint still pending.
\<close>

theorem accept_pending_store_refuses:
  "hashPendingCheckpoint (state_pending 3) = 3
   \<and> m_block_index chain_state_db_down 3 = Some block_b
   \<and> Contains (m_chain chain_state_db_down) block_b
   \<and> fst (ValidateSyncCheckpoint 3 chain_state_db_down (state_pending 3)) = Accept
   \<and> AcceptPendingSyncCheckpoint (Some [10, 11]) chain_state_db_down (state_pending 3) =
       (False, state_pending 3)"
  by (simp add: AcceptPendingSyncCheckpoint_def ValidateSyncCheckpoint_def
      WriteSyncCheckpoint_def WriteSyncCheckpoint_steps_def GetBlockHash_def
      chain_state_db_down_def tree_defs)

text \<open>
  C7 (amended). Take a state with a pending checkpoint whose block is in the block
  index. If validation accepts the pending hash and its block is on the active chain
  (the pending message being the message of the pending hash),
  \<open>AcceptPendingSyncCheckpoint\<close> commits provided the database accepts the write: the hash
  is written to the database once, it becomes the active checkpoint, the pending
  message becomes the active message, the pending hash and message are cleared, and
  \<^verbatim>\<open>RelayTo\<close> is called with the message for every node of the connection manager; when
  the database refuses the write the function fails and changes nothing. If validation
  does not accept the pending hash, the pending hash and message are cleared, nothing is
  written and the active checkpoint stays.
\<close>

theorem accept_pending_commits_or_drops:
  assumes "hashPendingCheckpoint s \<noteq> 0"
    and "m_block_index chainState (hashPendingCheckpoint s) = Some pindex"
  shows "(fst (ValidateSyncCheckpoint (hashPendingCheckpoint s) chainState s) = Accept
          \<and> Contains (m_chain chainState) pindex
          \<and> hashCheckpoint (checkpointMessagePending s) = hashPendingCheckpoint s
         \<longrightarrow> AcceptPendingSyncCheckpoint g_connman chainState s =
               (if block_tree_db_ok chainState
                then (True,
                      s\<lparr>effects := effects s
                           @ [DbWriteSyncCheckpoint (hashPendingCheckpoint s),
                              ForceFlushStateToDisk]
                           @ (case g_connman of
                                None \<Rightarrow> []
                              | Some connman \<Rightarrow>
                                  map (RelayTo (checkpointMessagePending s)) connman),
                        hashSyncCheckpoint := hashPendingCheckpoint s,
                        hashPendingCheckpoint := 0,
                        checkpointMessage := checkpointMessagePending s,
                        checkpointMessagePending := SetNull\<rparr>)
                else (False, s))
             \<and> db_writes (effects (snd (AcceptPendingSyncCheckpoint g_connman chainState s)))
                 = db_writes (effects s)
                   @ (if block_tree_db_ok chainState then [hashPendingCheckpoint s] else []))
       \<and> (fst (ValidateSyncCheckpoint (hashPendingCheckpoint s) chainState s) \<noteq> Accept
         \<longrightarrow> AcceptPendingSyncCheckpoint g_connman chainState s =
               (False,
                (snd (ValidateSyncCheckpoint (hashPendingCheckpoint s) chainState s))
                  \<lparr>hashPendingCheckpoint := 0, checkpointMessagePending := SetNull\<rparr>)
             \<and> effects (snd (AcceptPendingSyncCheckpoint g_connman chainState s)) = effects s
             \<and> hashSyncCheckpoint (snd (AcceptPendingSyncCheckpoint g_connman chainState s))
                 = hashSyncCheckpoint s)"
proof (intro conjI impI)
  assume a: "fst (ValidateSyncCheckpoint (hashPendingCheckpoint s) chainState s) = Accept
          \<and> Contains (m_chain chainState) pindex
          \<and> hashCheckpoint (checkpointMessagePending s) = hashPendingCheckpoint s"
  then have v: "ValidateSyncCheckpoint (hashPendingCheckpoint s) chainState s = (Accept, s)"
    by (simp add: validate_accept_state)
  from a assms(1) have nn: "\<not> IsNull (checkpointMessagePending s)"
    by (simp add: IsNull_def)
  show commit: "AcceptPendingSyncCheckpoint g_connman chainState s =
               (if block_tree_db_ok chainState
                then (True,
                      s\<lparr>effects := effects s
                           @ [DbWriteSyncCheckpoint (hashPendingCheckpoint s),
                              ForceFlushStateToDisk]
                           @ (case g_connman of
                                None \<Rightarrow> []
                              | Some connman \<Rightarrow>
                                  map (RelayTo (checkpointMessagePending s)) connman),
                        hashSyncCheckpoint := hashPendingCheckpoint s,
                        hashPendingCheckpoint := 0,
                        checkpointMessage := checkpointMessagePending s,
                        checkpointMessagePending := SetNull\<rparr>)
                else (False, s))"
    using a assms v nn
    by (cases g_connman)
      (simp_all add: AcceptPendingSyncCheckpoint_def write_ok write_failed Let_def
        ForEachNode_RelayTo_def)
  show "db_writes (effects (snd (AcceptPendingSyncCheckpoint g_connman chainState s)))
          = db_writes (effects s)
            @ (if block_tree_db_ok chainState then [hashPendingCheckpoint s] else [])"
    unfolding commit
    by (cases g_connman) (simp_all add: db_writes_append db_writes_relay)
next
  assume r: "fst (ValidateSyncCheckpoint (hashPendingCheckpoint s) chainState s) \<noteq> Accept"
  show drop: "AcceptPendingSyncCheckpoint g_connman chainState s =
               (False,
                (snd (ValidateSyncCheckpoint (hashPendingCheckpoint s) chainState s))
                  \<lparr>hashPendingCheckpoint := 0, checkpointMessagePending := SetNull\<rparr>)"
  proof (cases "ValidateSyncCheckpoint (hashPendingCheckpoint s) chainState s")
    case (Pair res s1)
    with r have "res \<noteq> Accept" by simp
    with Pair assms show ?thesis by (simp add: AcceptPendingSyncCheckpoint_def)
  qed
  show "effects (snd (AcceptPendingSyncCheckpoint g_connman chainState s)) = effects s"
    unfolding drop by (simp add: validate_keeps)
  show "hashSyncCheckpoint (snd (AcceptPendingSyncCheckpoint g_connman chainState s))
          = hashSyncCheckpoint s"
    unfolding drop by (simp add: validate_keeps)
qed

text \<open>With two connected nodes: the pending checkpoint \<open>block_b\<close> is committed and
  relayed to both; the pending checkpoint \<open>fork_b\<close> is dropped and recorded as invalid.\<close>

theorem accept_pending_commits_or_drops_witness:
  "AcceptPendingSyncCheckpoint (Some [10, 11]) chain_state (state_pending 3) =
     (True,
      state_a\<lparr>effects := [DbWriteSyncCheckpoint 3, ForceFlushStateToDisk,
                          RelayTo (checked_message 3) 10, RelayTo (checked_message 3) 11],
              hashSyncCheckpoint := 3,
              checkpointMessage := checked_message 3\<rparr>)
   \<and> AcceptPendingSyncCheckpoint (Some [10, 11]) chain_state (state_pending 5) =
     (False, state_a\<lparr>hashInvalidCheckpoint := 5\<rparr>)"
proof -
  have pending: "hashPendingCheckpoint (state_pending 3) \<noteq> 0"
    "hashPendingCheckpoint (state_pending 5) \<noteq> 0"
    by (simp_all add: tree_defs)
  have known: "m_block_index chain_state (hashPendingCheckpoint (state_pending 3)) = Some block_b"
    "m_block_index chain_state (hashPendingCheckpoint (state_pending 5)) = Some fork_b"
    by (simp_all add: tree_defs)
  have valid: "ValidateSyncCheckpoint (hashPendingCheckpoint (state_pending 3)) chain_state
      (state_pending 3) = (Accept, state_pending 3)"
    by (simp add: ValidateSyncCheckpoint_def GetBlockHash_def tree_defs)
  have invalid: "ValidateSyncCheckpoint (hashPendingCheckpoint (state_pending 5)) chain_state
      (state_pending 5) =
      (Reject NotDescendant, (state_pending 5)\<lparr>hashInvalidCheckpoint := 5\<rparr>)"
    by (simp add: ValidateSyncCheckpoint_def GetBlockHash_def tree_defs)
  have rest: "Contains (m_chain chain_state) block_b" "block_tree_db_ok chain_state"
    "hashCheckpoint (checkpointMessagePending (state_pending 3)) =
       hashPendingCheckpoint (state_pending 3)"
    by (simp_all add: tree_defs)
  show ?thesis
    using accept_pending_commits_or_drops [OF pending(1) known(1), of "Some [10, 11]"]
      accept_pending_commits_or_drops [OF pending(2) known(2), of "Some [10, 11]"]
      valid invalid rest
    by (simp add: tree_defs SetNull_def)
qed

subsection \<open>Processing a committed checkpoint again\<close>

text \<open>
  C9. Once \<open>ProcessSyncCheckpoint\<close> has committed a message, processing the same message
  again (the same signed bytes and signature, on the same chain) returns \<open>Stale\<close> and
  leaves the whole state as the commit left it, however often it is repeated: after
  any number \<open>n\<close> of repetitions the next one still returns \<open>Stale\<close> with that state.
\<close>

theorem process_committed_again:
  assumes "ProcessSyncCheckpoint pr this chainman s = (Committed, s')"
    and "vchMsg again = vchMsg this"
    and "vchSig again = vchSig this"
  shows "ProcessSyncCheckpoint pr again chainman
           (((\<lambda>t. snd (ProcessSyncCheckpoint pr again chainman t)) ^^ n) s') = (Stale, s')"
proof -
  from assms(1) obtain this' pindex where c:
    "CheckSignature pr this = Inr this'"
    "m_block_index chainman (hashCheckpoint this') = Some pindex"
    "Contains (m_chain chainman) pindex"
    "hashSyncCheckpoint s' = hashCheckpoint this'"
    by (rule process_committed_cases)
  from check_signature_bytes [OF assms(2,3) c(1)] obtain again' where
    "CheckSignature pr again = Inr again'" "hashCheckpoint again' = hashCheckpoint this'"
    by blast
  with c have once: "ProcessSyncCheckpoint pr again chainman s' = (Stale, s')"
    by (intro process_again_stale [where again' = again' and pindex = pindex]) simp_all
  have "((\<lambda>t. snd (ProcessSyncCheckpoint pr again chainman t)) ^^ n) s' = s'"
    by (induction n) (simp_all add: once)
  with once show ?thesis by simp
qed

text \<open>The message for \<open>block_b\<close> is committed over \<open>block_a\<close> and then processed three
  more times.\<close>

theorem process_committed_again_witness:
  "fst (ProcessSyncCheckpoint toy_primitives (message_for 3) chain_state state_a) = Committed
   \<and> ProcessSyncCheckpoint toy_primitives (message_for 3) chain_state
     (((\<lambda>t. snd (ProcessSyncCheckpoint toy_primitives (message_for 3) chain_state t)) ^^ 2)
        (snd (ProcessSyncCheckpoint toy_primitives (message_for 3) chain_state state_a))) =
   (Stale, snd (ProcessSyncCheckpoint toy_primitives (message_for 3) chain_state state_a))"
proof -
  have first: "fst (ProcessSyncCheckpoint toy_primitives (message_for 3) chain_state state_a)
      = Committed"
    by (simp add: ProcessSyncCheckpoint_def CheckSignature_def ValidateSyncCheckpoint_def
        WriteSyncCheckpoint_def GetBlockHash_def tree_defs)
  then have "ProcessSyncCheckpoint toy_primitives (message_for 3) chain_state state_a =
     (Committed, snd (ProcessSyncCheckpoint toy_primitives (message_for 3) chain_state state_a))"
    by (simp add: prod_eq_iff)
  from process_committed_again [OF this refl refl, of 2] first show ?thesis by simp
qed

end
